theory Spec2Isabelle
  imports
    Main
    "HOL-Library.Word"
    "HOL-Library.Finite_Map"
    "HOL-Library.Char_ord"
    "HOL-Library.List_Lexorder"
    "HOL-Library.Sublist"
begin

unbundle bit_operations_syntax

section \<open>Strings\<close>

text \<open>
  A Go \<^verbatim>\<open>string\<close> is a sequence of bytes; it is modelled as a \<^typ>\<open>string\<close>, one
  \<^typ>\<open>char\<close> per byte.  Strings are compared byte-wise (the order of
  \<^verbatim>\<open>sort.Strings\<close>), which is the lexicographic order on \<^typ>\<open>char list\<close>.
\<close>

subsection \<open>\<^verbatim>\<open>strings.Replace\<close>\<close>

text \<open>
  \<^verbatim>\<open>strings.Replace(s, old, new, n)\<close> replaces the first \<open>n\<close> non-overlapping
  occurrences of \<open>old\<close>, scanning from the left; a negative \<open>n\<close> means no limit.
  With an empty \<open>old\<close> Go inserts \<open>new\<close> at the start and after every UTF-8 sequence;
  \<open>Replace_empty\<close> does so after every byte, which is the same on ASCII text.  The
  program only calls \<^verbatim>\<open>Replace\<close> with the non-empty patterns \<^verbatim>\<open>"+"\<close>,
  \<^verbatim>\<open>"*"\<close> and \<^verbatim>\<open>"%7E"\<close> and with \<open>n = -1\<close>.
\<close>

fun Replace_empty :: "string \<Rightarrow> string \<Rightarrow> int \<Rightarrow> string" where
  "Replace_empty [] new n = (if n = 0 then [] else new)"
| "Replace_empty (c # cs) new n =
     (if n = 0 then c # cs else new @ c # Replace_empty cs new (n - 1))"

function Replace_from :: "string \<Rightarrow> string \<Rightarrow> string \<Rightarrow> int \<Rightarrow> string" where
  "Replace_from s old new n =
     (if n = 0 \<or> old = [] \<or> s = [] then s
      else if prefix old s then new @ Replace_from (drop (length old) s) old new (n - 1)
      else hd s # Replace_from (tl s) old new n)"
  by pat_completeness auto
termination
  by (relation "measure (\<lambda>(s, old, new, n). length s)") (auto simp: Suc_le_eq)

definition Replace :: "string \<Rightarrow> string \<Rightarrow> string \<Rightarrow> int \<Rightarrow> string" where
  "Replace s old new n = (if old = [] then Replace_empty s new n else Replace_from s old new n)"

declare Replace_from.simps [simp del]

subsection \<open>\<^verbatim>\<open>url.QueryEscape\<close>\<close>

text \<open>
  \<^verbatim>\<open>net/url\<close>: \<^verbatim>\<open>QueryEscape(s)\<close> is \<^verbatim>\<open>escape(s, encodeQueryComponent)\<close>.  In that
  mode \<^verbatim>\<open>shouldEscape\<close> keeps the letters, the digits and \<^verbatim>\<open>- _ . ~\<close>; every
  other byte is escaped.  A space becomes \<^verbatim>\<open>+\<close>, any other escaped byte becomes
  \<^verbatim>\<open>%\<close> and two upper-case hexadecimal digits.
\<close>

definition upperhex :: string where
  "upperhex = ''0123456789ABCDEF''"

definition shouldEscape :: "char \<Rightarrow> bool" where
  "shouldEscape c =
     (if (CHR ''a'' \<le> c \<and> c \<le> CHR ''z'') \<or> (CHR ''A'' \<le> c \<and> c \<le> CHR ''Z'')
          \<or> (CHR ''0'' \<le> c \<and> c \<le> CHR ''9'') then False
      else if c \<in> {CHR ''-'', CHR ''_'', CHR ''.'', CHR ''~''} then False
      else True)"

definition escape_byte :: "char \<Rightarrow> string" where
  "escape_byte c =
     (if c = CHR '' '' then ''+''
      else if shouldEscape c then
        [CHR ''%'', upperhex ! (of_char c div 16), upperhex ! (of_char c mod 16)]
      else [c])"

fun QueryEscape :: "string \<Rightarrow> string" where
  "QueryEscape [] = []"
| "QueryEscape (c # cs) = escape_byte c @ QueryEscape cs"

subsection \<open>\<^verbatim>\<open>SpecialURLEncode\<close>\<close>

definition SpecialURLEncode :: "string \<Rightarrow> string" where
  "SpecialURLEncode str =
     (let encodedStr = QueryEscape str;
          encodedStr = Replace encodedStr ''+'' ''%20'' (- 1);
          encodedStr = Replace encodedStr ''*'' ''%2A'' (- 1);
          encodedStr = Replace encodedStr ''%7E'' ''~'' (- 1)
      in encodedStr)"

section \<open>Query values\<close>

subsection \<open>\<^verbatim>\<open>url.Values\<close>\<close>

text \<open>
  \<^verbatim>\<open>url.Values\<close> is a \<^verbatim>\<open>map[string][]string\<close>.  \<^verbatim>\<open>Set\<close> replaces the values of
  a key by the single given value.  \<^verbatim>\<open>Encode\<close> sorts the keys of the map (the raw
  keys, with \<^verbatim>\<open>sort.Strings\<close>) and writes, for each key in that order and each of its
  values, \<^verbatim>\<open>QueryEscape(key) = QueryEscape(value)\<close>, with \<^verbatim>\<open>&\<close> before every pair
  but the first.  Reading a key that the map does not hold gives the empty slice.
\<close>

type_synonym Values = "(string, string list) fmap"

definition Values_Set :: "string \<Rightarrow> string \<Rightarrow> Values \<Rightarrow> Values" where
  "Values_Set key val v = fmupd key [val] v"

definition Values_index :: "Values \<Rightarrow> string \<Rightarrow> string list" where
  "Values_index v k = (case fmlookup v k of None \<Rightarrow> [] | Some vs \<Rightarrow> vs)"

fun Encode_values :: "string \<Rightarrow> string list \<Rightarrow> string \<Rightarrow> string" where
  "Encode_values keyEscaped [] buf = buf"
| "Encode_values keyEscaped (val # vs) buf =
     Encode_values keyEscaped vs
       ((if length buf > 0 then buf @ ''&'' else buf) @ keyEscaped @ ''='' @ QueryEscape val)"

fun Encode_keys :: "Values \<Rightarrow> string list \<Rightarrow> string \<Rightarrow> string" where
  "Encode_keys v [] buf = buf"
| "Encode_keys v (k # keys) buf =
     Encode_keys v keys (Encode_values (QueryEscape k) (Values_index v k) buf)"

definition Values_Encode :: "Values \<Rightarrow> string" where
  "Values_Encode v =
     (if fmdom v = {||} then [] else Encode_keys v (sorted_list_of_fset (fmdom v)) [])"

section \<open>The client\<close>

text \<open>
  \<^verbatim>\<open>Params\<close> is a Go \<^verbatim>\<open>map[string]string\<close>: a finite map, or \<^verbatim>\<open>nil\<close> (the zero
  value of the struct), which reads as the empty map and panics when written to.
  \<^verbatim>\<open>sms.go\<close> holds two revisions of the package, with the struct named \<^verbatim>\<open>SMS\<close> in
  the first and \<^verbatim>\<open>Client\<close> in the second (and in the unnamed file); their fields and
  functions are the same text except for \<^verbatim>\<open>SignedString\<close>, so one record serves both.
  The embedded \<^verbatim>\<open>http.Client\<close> is part of the transport, which is an input of \<open>Send\<close>.
\<close>

datatype panic = NilMapAssignment | NilFuncCall

type_synonym gomap = "(string, string) fmap option"

record Client =
  accessKeySecret :: string
  Params :: gomap

definition map_entries :: "gomap \<Rightarrow> (string, string) fmap" where
  "map_entries m = (case m of None \<Rightarrow> fmempty | Some f \<Rightarrow> f)"

definition map_index :: "gomap \<Rightarrow> string \<Rightarrow> string" where
  "map_index m k = (case fmlookup (map_entries m) k of None \<Rightarrow> [] | Some v \<Rightarrow> v)"

definition map_assign :: "string \<Rightarrow> string \<Rightarrow> gomap \<Rightarrow> panic + gomap" where
  "map_assign k v m = (case m of None \<Rightarrow> Inl NilMapAssignment | Some f \<Rightarrow> Inr (Some (fmupd k v f)))"

definition set_Param :: "string \<Rightarrow> string \<Rightarrow> Client \<Rightarrow> panic + Client" where
  "set_Param k v c =
     (case map_assign k v (Params c) of Inl p \<Rightarrow> Inl p | Inr m \<Rightarrow> Inr (c\<lparr>Params := m\<rparr>))"

definition NewClient :: "string \<Rightarrow> string \<Rightarrow> Client" where
  "NewClient accessKeyID secret =
     \<lparr>accessKeySecret = secret, Params = Some (fmupd ''AccessKeyId'' accessKeyID fmempty)\<rparr>"

subsection \<open>\<^verbatim>\<open>SortedQueryStr\<close>\<close>

text \<open>
  The loop \<^verbatim>\<open>for k, v := range c.Params { values.Set(k, v) }\<close> visits every key of the
  map once, in an order Go leaves open.  \<open>range_Set\<close> is the loop over a given order of
  visit; \<open>SortedQueryStr\<close> takes the ascending one, and \<open>range_Set_any_order\<close> below
  shows that the order of visit does not matter.
\<close>

definition range_Set :: "gomap \<Rightarrow> string list \<Rightarrow> Values" where
  "range_Set m ks = fold (\<lambda>k values. Values_Set k (map_index m k) values) ks fmempty"

definition SortedQueryStr :: "Client \<Rightarrow> string" where
  "SortedQueryStr c =
     (let values = range_Set (Params c) (sorted_list_of_fset (fmdom (map_entries (Params c))))
      in Values_Encode values)"

section \<open>Time stamps\<close>

subsection \<open>\<^verbatim>\<open>time.Time\<close>\<close>

text \<open>
  A \<^verbatim>\<open>time.Time\<close> is an instant together with a \<^verbatim>\<open>Location\<close>.  The model keeps the
  seconds since the Unix epoch (an \<^verbatim>\<open>int64\<close>) and the offset in seconds east of UTC
  that the location has at that instant; the nanoseconds are not read by the accessors
  used here.  \<^verbatim>\<open>UTC()\<close> keeps the instant and sets the location to UTC.  The accessors
  go through \<^verbatim>\<open>abs()\<close>, the seconds since the year \<open>-292277022399\<close> as a
  \<^verbatim>\<open>uint64\<close> (an \<^typ>\<open>int\<close> taken modulo \<open>2 ^ 64\<close>), and \<^verbatim>\<open>absDate\<close>, which cuts off cycles of 400, 100, 4 and 1 years.
\<close>

record Time =
  unixSec :: int
  zoneOffset :: int

definition UTC :: "Time \<Rightarrow> Time" where
  "UTC t = t\<lparr>zoneOffset := 0\<rparr>"

definition unixToInternal :: int where
  "unixToInternal = (1969 * 365 + 1969 div 4 - 1969 div 100 + 1969 div 400) * 86400"

definition absoluteZeroYear :: int where
  "absoluteZeroYear = - 292277022399"

definition internalToAbsolute :: int where
  "internalToAbsolute = - ((absoluteZeroYear - 1) * 31556952)"

definition abs_sec :: "Time \<Rightarrow> int" where
  "abs_sec t = (unixSec t + zoneOffset t + (unixToInternal + internalToAbsolute)) mod 2 ^ 64"

definition isLeap :: "int \<Rightarrow> bool" where
  "isLeap year \<longleftrightarrow> year mod 4 = 0 \<and> (year mod 100 \<noteq> 0 \<or> year mod 400 = 0)"

definition daysBefore :: "int list" where
  "daysBefore = [0, 31, 59, 90, 120, 151, 181, 212, 243, 273, 304, 334, 365]"

definition absDate_yday :: "int \<Rightarrow> int \<times> int" where
  "absDate_yday abs_s =
     (let d = abs_s div 86400;
          n = d div 146097; y = 400 * n; d = d - 146097 * n;
          n = d div 36524; n = n - n div 4; y = y + 100 * n; d = d - 36524 * n;
          n = d div 1461; y = y + 4 * n; d = d - 1461 * n;
          n = d div 365; n = n - n div 4; y = y + n; d = d - 365 * n
      in (y + absoluteZeroYear, d))"

definition absDate :: "int \<Rightarrow> int \<times> int \<times> int" where
  "absDate abs_s =
     (let (year, yday) = absDate_yday abs_s; day = yday
      in if isLeap year \<and> day = 31 + 29 - 1 then (year, 2, 29)
         else
           let day = (if isLeap year \<and> day > 31 + 29 - 1 then day - 1 else day);
               month = day div 31;
               end_d = daysBefore ! nat (month + 1);
               (month, begin_d) =
                 (if day \<ge> end_d then (month + 1, end_d) else (month, daysBefore ! nat month))
           in (year, month + 1, day - begin_d + 1))"

definition Year :: "Time \<Rightarrow> int" where
  "Year t = fst (absDate (abs_sec t))"

definition Month :: "Time \<Rightarrow> int" where
  "Month t = fst (snd (absDate (abs_sec t)))"

definition Day :: "Time \<Rightarrow> int" where
  "Day t = snd (snd (absDate (abs_sec t)))"

definition Hour :: "Time \<Rightarrow> int" where
  "Hour t = (abs_sec t mod 86400) div 3600"

definition Minute :: "Time \<Rightarrow> int" where
  "Minute t = (abs_sec t mod 3600) div 60"

definition Second :: "Time \<Rightarrow> int" where
  "Second t = abs_sec t mod 60"

subsection \<open>\<^verbatim>\<open>fmt.Sprintf\<close> with the verb \<^verbatim>\<open>%0Nd\<close>\<close>

text \<open>
  \<^verbatim>\<open>%04d\<close> and \<^verbatim>\<open>%02d\<close>: the decimal digits of the absolute value, padded on the left
  with zeros up to the width (one less for a negative number, whose sign takes a
  place), never cut.
\<close>

definition digit_char :: "int \<Rightarrow> char" where
  "digit_char d = ''0123456789'' ! nat d"

function decimal :: "int \<Rightarrow> string" where
  "decimal n = (if n < 10 then [digit_char n] else decimal (n div 10) @ [digit_char (n mod 10)])"
  by pat_completeness auto
termination
  by (relation "measure nat") auto

declare decimal.simps [simp del]

definition fmt_0d :: "nat \<Rightarrow> int \<Rightarrow> string" where
  "fmt_0d wid v =
     (let negative = v < 0;
          prec = (if negative then wid - 1 else wid);
          ds = decimal \<bar>v\<bar>
      in (if negative then ''-'' else []) @ replicate (prec - length ds) CHR ''0'' @ ds)"

definition Sprintf_timestamp :: "int \<Rightarrow> int \<Rightarrow> int \<Rightarrow> int \<Rightarrow> int \<Rightarrow> int \<Rightarrow> string" where
  "Sprintf_timestamp year month day hour minute second =
     fmt_0d 4 year @ ''-'' @ fmt_0d 2 month @ ''-'' @ fmt_0d 2 day @ ''T''
       @ fmt_0d 2 hour @ '':'' @ fmt_0d 2 minute @ '':'' @ fmt_0d 2 second @ ''Z''"

definition GenTimestamp :: "Time \<Rightarrow> string" where
  "GenTimestamp t =
     (let gmt = UTC t
      in Sprintf_timestamp (Year gmt) (Month gmt) (Day gmt) (Hour gmt) (Minute gmt) (Second gmt))"

definition SetTimestamp :: "Time \<Rightarrow> Client \<Rightarrow> panic + Client" where
  "SetTimestamp t c =
     (let gmt = UTC t
      in set_Param ''Timestamp''
           (Sprintf_timestamp (Year gmt) (Month gmt) (Day gmt) (Hour gmt) (Minute gmt) (Second gmt))
           c)"

section \<open>Signing\<close>

subsection \<open>\<^verbatim>\<open>crypto/sha1\<close>\<close>

text \<open>
  A \<^verbatim>\<open>[]byte\<close> is modelled like a string, one \<^typ>\<open>char\<close> per byte.  SHA-1 as in
  FIPS 180: the message is padded with the byte \<open>0x80\<close>, zeros and its length in bits
  as eight big-endian bytes up to a multiple of 64 bytes; each block of 64 bytes
  is expanded to 80 words and run through 80 rounds; the digest is the five state
  words, big-endian, 20 bytes.
\<close>

type_synonym bytes = string

definition be_word32 :: "bytes \<Rightarrow> 32 word" where
  "be_word32 bs = foldl (\<lambda>w c. push_bit 8 w OR word_of_nat (of_char c)) 0 (take 4 bs)"

definition word32_bytes :: "32 word \<Rightarrow> bytes" where
  "word32_bytes w = map (\<lambda>i. char_of (unat (drop_bit (8 * i) w))) [3, 2, 1, 0]"

definition uint64_bytes :: "nat \<Rightarrow> bytes" where
  "uint64_bytes n = map (\<lambda>i. char_of (drop_bit (8 * i) n)) [7, 6, 5, 4, 3, 2, 1, 0]"

definition sha1_pad :: "bytes \<Rightarrow> bytes" where
  "sha1_pad msg =
     msg @ [char_of (128 :: nat)]
       @ replicate ((119 - length msg mod 64) mod 64) (char_of (0 :: nat))
       @ uint64_bytes (8 * length msg)"

fun chunks :: "nat \<Rightarrow> 'a list \<Rightarrow> 'a list list" where
  "chunks n [] = []"
| "chunks n (x # xs) =
     (if n = 0 then [] else take n (x # xs) # chunks n (drop n (x # xs)))"

fun sha1_schedule :: "nat \<Rightarrow> 32 word list \<Rightarrow> 32 word list" where
  "sha1_schedule 0 w = w"
| "sha1_schedule (Suc k) w =
     sha1_schedule k
       (w @ [word_rotl 1 (w ! (length w - 3) XOR w ! (length w - 8)
                          XOR w ! (length w - 14) XOR w ! (length w - 16))])"

definition sha1_f :: "nat \<Rightarrow> 32 word \<Rightarrow> 32 word \<Rightarrow> 32 word \<Rightarrow> 32 word" where
  "sha1_f t b c d =
     (if t < 20 then (b AND c) OR (NOT b AND d)
      else if t < 40 then b XOR c XOR d
      else if t < 60 then (b AND c) OR (b AND d) OR (c AND d)
      else b XOR c XOR d)"

definition sha1_k :: "nat \<Rightarrow> 32 word" where
  "sha1_k t =
     (if t < 20 then 0x5A827999 else if t < 40 then 0x6ED9EBA1
      else if t < 60 then 0x8F1BBCDC else 0xCA62C1D6)"

type_synonym sha1_state = "32 word \<times> 32 word \<times> 32 word \<times> 32 word \<times> 32 word"

fun sha1_round :: "32 word list \<Rightarrow> sha1_state \<Rightarrow> nat \<Rightarrow> sha1_state" where
  "sha1_round w (a, b, c, d, e) t =
     (word_rotl 5 a + sha1_f t b c d + e + sha1_k t + w ! t, a, word_rotl 30 b, c, d)"

definition sha1_block :: "sha1_state \<Rightarrow> bytes \<Rightarrow> sha1_state" where
  "sha1_block h blk =
     (let w = sha1_schedule 64 (map be_word32 (chunks 4 blk));
          (h0, h1, h2, h3, h4) = h;
          (a, b, c, d, e) = foldl (sha1_round w) h [0..<80]
      in (h0 + a, h1 + b, h2 + c, h3 + d, h4 + e))"

definition sha1_init :: sha1_state where
  "sha1_init = (0x67452301, 0xEFCDAB89, 0x98BADCFE, 0x10325476, 0xC3D2E1F0)"

definition sha1_Sum :: "bytes \<Rightarrow> bytes" where
  "sha1_Sum msg =
     (let (h0, h1, h2, h3, h4) = foldl sha1_block sha1_init (chunks 64 (sha1_pad msg))
      in concat (map word32_bytes [h0, h1, h2, h3, h4]))"

subsection \<open>\<^verbatim>\<open>crypto/hmac\<close>\<close>

text \<open>
  \<^verbatim>\<open>hmac.New(sha1.New, key)\<close> hashes a key longer than the block size of 64 bytes,
  pads the key with zeros to 64 bytes, and starts the inner hash with the key xor
  \<open>0x36\<close>; \<^verbatim>\<open>Write\<close> feeds the inner hash; \<^verbatim>\<open>Sum(b)\<close> appends to \<open>b\<close> the hash of
  the key xor \<open>0x5c\<close> followed by the inner digest.
\<close>

definition xor_byte :: "nat \<Rightarrow> char \<Rightarrow> char" where
  "xor_byte k c = char_of (of_char c XOR k)"

record HMAC =
  opad :: bytes
  ipad :: bytes
  inner :: bytes

definition hmac_New :: "bytes \<Rightarrow> HMAC" where
  "hmac_New key =
     (let key = (if length key > 64 then sha1_Sum key else key);
          padded = key @ replicate (64 - length key) (char_of (0 :: nat));
          ip = map (xor_byte 0x36) padded;
          op = map (xor_byte 0x5c) padded
      in \<lparr>opad = op, ipad = ip, inner = ip\<rparr>)"

definition hmac_Write :: "bytes \<Rightarrow> HMAC \<Rightarrow> HMAC" where
  "hmac_Write p mac = mac\<lparr>inner := inner mac @ p\<rparr>"

definition hmac_Sum :: "HMAC \<Rightarrow> bytes \<Rightarrow> bytes" where
  "hmac_Sum mac b = b @ sha1_Sum (opad mac @ sha1_Sum (inner mac))"

text \<open>HMAC-SHA1 of a message under a key, as RFC 2104 states it.\<close>

definition HMAC_SHA1 :: "bytes \<Rightarrow> bytes \<Rightarrow> bytes" where
  "HMAC_SHA1 key msg =
     (let k = (if length key > 64 then sha1_Sum key else key);
          k = k @ replicate (64 - length k) (char_of (0 :: nat))
      in sha1_Sum (map (xor_byte 0x5c) k @ sha1_Sum (map (xor_byte 0x36) k @ msg)))"

subsection \<open>\<^verbatim>\<open>base64.StdEncoding.EncodeToString\<close>\<close>

definition encodeStd :: string where
  "encodeStd = ''ABCDEFGHIJKLMNOPQRSTUVWXYZabcdefghijklmnopqrstuvwxyz0123456789+/''"

fun EncodeToString :: "bytes \<Rightarrow> string" where
  "EncodeToString [] = []"
| "EncodeToString [a] =
     [encodeStd ! (of_char a div 4), encodeStd ! (of_char a mod 4 * 16), CHR ''='', CHR ''='']"
| "EncodeToString [a, b] =
     [encodeStd ! (of_char a div 4), encodeStd ! (of_char a mod 4 * 16 + of_char b div 16),
      encodeStd ! (of_char b mod 16 * 4), CHR ''='']"
| "EncodeToString (a # b # c # rest) =
     [encodeStd ! (of_char a div 4), encodeStd ! (of_char a mod 4 * 16 + of_char b div 16),
      encodeStd ! (of_char b mod 16 * 4 + of_char c div 64), encodeStd ! (of_char c mod 64)]
     @ EncodeToString rest"

subsection \<open>\<^verbatim>\<open>SignedString\<close>\<close>

text \<open>
  The first revision in \<^verbatim>\<open>sms.go\<close> (\<^verbatim>\<open>func (sms *SMS) SignedString\<close>) escapes the
  base64 text with \<^verbatim>\<open>url.QueryEscape\<close> before \<^verbatim>\<open>SpecialURLEncode\<close>; the second
  revision and the unnamed file (\<^verbatim>\<open>func (c *Client) SignedString\<close>) do not.
\<close>

definition SMS_SignedString :: "Client \<Rightarrow> string" where
  "SMS_SignedString sms =
     (let str = ''GET&'' @ QueryEscape ''/'' @ ''&'' @ SpecialURLEncode (SortedQueryStr sms);
          mac = hmac_New (accessKeySecret sms @ ''&'');
          mac = hmac_Write str mac;
          sign = EncodeToString (hmac_Sum mac []);
          sign = QueryEscape sign
      in SpecialURLEncode sign)"

definition Client_SignedString :: "Client \<Rightarrow> string" where
  "Client_SignedString c =
     (let str = ''GET&'' @ QueryEscape ''/'' @ ''&'' @ SpecialURLEncode (SortedQueryStr c);
          mac = hmac_New (accessKeySecret c @ ''&'');
          mac = hmac_Write str mac;
          sign = EncodeToString (hmac_Sum mac [])
      in SpecialURLEncode sign)"

section \<open>Sending\<close>

subsection \<open>Options\<close>

text \<open>
  A \<^verbatim>\<open>Param\<close> wraps a closure \<^verbatim>\<open>f func(c *Client)\<close>.  The field is not exported, so
  the values a caller can build are those of the eight constructors of the package
  and the zero value \<^verbatim>\<open>Param{}\<close>, whose \<^verbatim>\<open>f\<close> is \<^verbatim>\<open>nil\<close>; calling it panics.
\<close>

datatype Param =
    Timestamp Time
  | SignatureMethod string
  | SignatureVersion string
  | SignatureNonce string
  | Action string
  | Version string
  | RegionID string
  | OutID string
  | ZeroParam

fun Param_f :: "Param \<Rightarrow> Client \<Rightarrow> panic + Client" where
  "Param_f (Timestamp t) c = SetTimestamp t c"
| "Param_f (SignatureMethod m) c = set_Param ''SignatureMethod'' m c"
| "Param_f (SignatureVersion v) c = set_Param ''SignatureVersion'' v c"
| "Param_f (SignatureNonce nonce) c = set_Param ''SignatureNonce'' nonce c"
| "Param_f (Action action) c = set_Param ''Action'' action c"
| "Param_f (Version v) c = set_Param ''Version'' v c"
| "Param_f (RegionID ident) c = set_Param ''RegionId'' ident c"
| "Param_f (OutID ident) c = set_Param ''OutId'' ident c"
| "Param_f ZeroParam c = Inl NilFuncCall"

definition and_then :: "panic + 'a \<Rightarrow> ('a \<Rightarrow> panic + 'b) \<Rightarrow> panic + 'b" where
  "and_then r f = (case r of Inl p \<Rightarrow> Inl p | Inr x \<Rightarrow> f x)"

fun range_params :: "Param list \<Rightarrow> Client \<Rightarrow> panic + Client" where
  "range_params [] c = Inr c"
| "range_params (param # params) c = and_then (Param_f param c) (range_params params)"

subsection \<open>\<^verbatim>\<open>SetPhoneNumbers\<close>\<close>

fun range_nums :: "int \<Rightarrow> int \<Rightarrow> string list \<Rightarrow> string \<Rightarrow> string" where
  "range_nums i l [] str = str"
| "range_nums i l (num # nums) str =
     (let str = str @ num;
          str = (if i \<noteq> l - 1 then str @ '','' else str)
      in range_nums (i + 1) l nums str)"

definition SetPhoneNumbers :: "string list \<Rightarrow> Client \<Rightarrow> panic + Client" where
  "SetPhoneNumbers nums c =
     (let str = [];
          l = int (length nums);
          str = range_nums 0 l nums str
      in set_Param ''PhoneNumbers'' str c)"

subsection \<open>The collaborators of \<^verbatim>\<open>Send\<close>\<close>

text \<open>
  \<open>Send\<close> reads the clock and a fresh UUID (whose error it drops), performs one HTTP
  exchange and decodes the body with \<^verbatim>\<open>json.Unmarshal\<close>.  These are inputs of the
  model: the time, the UUID text, what happens to a GET of a given URL
  (\<^verbatim>\<open>http.NewRequest\<close> fails, \<^verbatim>\<open>Do\<close> fails, \<^verbatim>\<open>ioutil.ReadAll\<close> fails, or a body
  arrives) and what decoding a given body yields.
\<close>

datatype error = Error string

record Response =
  RequestID :: string
  Code :: string
  Message :: string
  BizID :: string

datatype exchange = NewRequestFails error | DoFails error | ReadAllFails error | Body string

record World =
  time_Now :: Time
  uuid_New :: string
  http_GET :: "string \<Rightarrow> exchange"
  json_Unmarshal :: "string \<Rightarrow> error + Response"

text \<open>
  \<^verbatim>\<open>url.URL.String()\<close> for a URL with scheme, host, path and raw query (the host and
  the path used here need no escaping).
\<close>

record URL =
  Scheme :: string
  Host :: string
  Path :: string
  RawQuery :: string

definition URL_String :: "URL \<Rightarrow> string" where
  "URL_String u =
     (if Scheme u \<noteq> [] then Scheme u @ '':'' else [])
       @ (if Host u \<noteq> [] \<or> Path u \<noteq> [] then ''//'' else [])
       @ Host u @ Path u
       @ (if RawQuery u \<noteq> [] then ''?'' @ RawQuery u else [])"

text \<open>
  \<^verbatim>\<open>strings.ToUpper\<close> maps every letter to its upper case.  The model does so for the
  ASCII letters and leaves the bytes of other characters as they are; Go would map
  those through the Unicode tables, to characters outside ASCII or (for U+0131 and
  U+017F) to \<^verbatim>\<open>I\<close> and \<^verbatim>\<open>S\<close>, none of which occurs in \<^verbatim>\<open>OK\<close>.
\<close>

definition ToUpper :: "string \<Rightarrow> string" where
  "ToUpper s =
     map (\<lambda>c. if CHR ''a'' \<le> c \<and> c \<le> CHR ''z'' then char_of (of_char c - (32 :: nat)) else c) s"

subsection \<open>\<^verbatim>\<open>Send\<close>\<close>

text \<open>
  What Go returns from \<open>Send\<close>: the success flag, the response pointer (\<^verbatim>\<open>nil\<close> is
  \<open>None\<close>) and the error (\<^verbatim>\<open>nil\<close> is \<open>None\<close>).  The model also returns the URL that
  was requested and the client as \<open>Send\<close> left it.  A panic is \<open>Inl\<close>.
\<close>

record Returned =
  success :: bool
  response :: "Response option"
  err :: "error option"

record Sent =
  returned :: Returned
  requested :: string
  client :: Client

text \<open>The part of \<open>Send\<close> up to \<^verbatim>\<open>// Set required business parameters\<close>.\<close>

definition set_parameters ::
  "World \<Rightarrow> string list \<Rightarrow> string \<Rightarrow> string \<Rightarrow> string \<Rightarrow> Param list \<Rightarrow> Client
     \<Rightarrow> panic + Client" where
  "set_parameters w phoneNumbers signName templateCode templateParam params c =
     and_then (SetTimestamp (time_Now w) c) (\<lambda>c.
     and_then (set_Param ''Format'' ''JSON'' c) (\<lambda>c.
     and_then (set_Param ''SignatureMethod'' ''HMAC-SHA1'' c) (\<lambda>c.
     and_then (set_Param ''SignatureVersion'' ''1.0'' c) (\<lambda>c.
     and_then (set_Param ''SignatureNonce'' (uuid_New w) c) (\<lambda>c.
     and_then (set_Param ''Action'' ''SendSms'' c) (\<lambda>c.
     and_then (set_Param ''Version'' ''2017-05-25'' c) (\<lambda>c.
     and_then (set_Param ''RegionId'' ''cn-hangzhou'' c) (\<lambda>c.
     and_then (range_params params c) (\<lambda>c.
     and_then (SetPhoneNumbers phoneNumbers c) (\<lambda>c.
     and_then (set_Param ''SignName'' signName c) (\<lambda>c.
     and_then (set_Param ''TemplateCode'' templateCode c) (\<lambda>c.
     set_Param ''TemplateParam'' templateParam c))))))))))))"

text \<open>The part from \<^verbatim>\<open>// Get signature\<close> to the end.\<close>

definition sign_and_send :: "(Client \<Rightarrow> string) \<Rightarrow> World \<Rightarrow> Client \<Rightarrow> Sent" where
  "sign_and_send SignedString w c =
     (let sign = SignedString c;
          sortedQueryStr = SortedQueryStr c;
          rawQuery = ''Signature='' @ sign @ ''&'' @ sortedQueryStr;
          u = \<lparr>Scheme = ''http'', Host = ''dysmsapi.aliyuncs.com'', Path = ''/'',
               RawQuery = rawQuery\<rparr>;
          ret =
            (case http_GET w (URL_String u) of
               NewRequestFails e \<Rightarrow> \<lparr>success = False, response = None, err = Some e\<rparr>
             | DoFails e \<Rightarrow> \<lparr>success = False, response = None, err = Some e\<rparr>
             | ReadAllFails e \<Rightarrow> \<lparr>success = False, response = None, err = Some e\<rparr>
             | Body buf \<Rightarrow>
                 (case json_Unmarshal w buf of
                    Inl e \<Rightarrow> \<lparr>success = False, response = None, err = Some e\<rparr>
                  | Inr r \<Rightarrow>
                      if ToUpper (Code r) \<noteq> ''OK''
                      then \<lparr>success = False, response = Some r, err = None\<rparr>
                      else \<lparr>success = True, response = Some r, err = None\<rparr>))
      in \<lparr>returned = ret, requested = URL_String u, client = c\<rparr>)"

definition Send_with ::
  "(Client \<Rightarrow> string) \<Rightarrow> World \<Rightarrow> string list \<Rightarrow> string \<Rightarrow> string \<Rightarrow> string \<Rightarrow> Param list
     \<Rightarrow> Client \<Rightarrow> panic + Sent" where
  "Send_with SignedString w phoneNumbers signName templateCode templateParam params c =
     (case set_parameters w phoneNumbers signName templateCode templateParam params c of
        Inl p \<Rightarrow> Inl p
      | Inr c \<Rightarrow> Inr (sign_and_send SignedString w c))"

text \<open>\<^verbatim>\<open>func (sms *SMS) Send\<close> and \<^verbatim>\<open>func (c *Client) Send\<close>.\<close>

definition SMS_Send ::
  "World \<Rightarrow> string list \<Rightarrow> string \<Rightarrow> string \<Rightarrow> string \<Rightarrow> Param list \<Rightarrow> Client \<Rightarrow> panic + Sent" where
  "SMS_Send = Send_with SMS_SignedString"

definition Client_Send ::
  "World \<Rightarrow> string list \<Rightarrow> string \<Rightarrow> string \<Rightarrow> string \<Rightarrow> Param list \<Rightarrow> Client \<Rightarrow> panic + Sent" where
  "Client_Send = Send_with Client_SignedString"

subsection \<open>Reading a query string back\<close>

text \<open>
  To say which pairs \<^emph>\<open>appear\<close> in a query string, the string is cut at every
  \<^verbatim>\<open>&\<close> and each piece at its first \<^verbatim>\<open>=\<close>.  \<open>join_with\<close> puts a separator
  between the strings of a list.
\<close>

fun split_on :: "char \<Rightarrow> string \<Rightarrow> string list" where
  "split_on sep [] = [[]]"
| "split_on sep (x # xs) =
     (if x = sep then [] # split_on sep xs
      else (case split_on sep xs of [] \<Rightarrow> [[x]] | p # ps \<Rightarrow> (x # p) # ps))"

definition cut_pair :: "string \<Rightarrow> string \<times> string" where
  "cut_pair p =
     (takeWhile (\<lambda>x. x \<noteq> CHR ''='') p, drop 1 (dropWhile (\<lambda>x. x \<noteq> CHR ''='') p))"

definition query_pairs :: "string \<Rightarrow> (string \<times> string) list" where
  "query_pairs q = (if q = [] then [] else map cut_pair (split_on CHR ''&'' q))"

fun join_with :: "string \<Rightarrow> string list \<Rightarrow> string" where
  "join_with sep [] = []"
| "join_with sep [x] = x"
| "join_with sep (x # y # ys) = x @ sep @ join_with sep (y # ys)"

definition param_keys :: "Client \<Rightarrow> string list" where
  "param_keys c = sorted_list_of_fset (fmdom (map_entries (Params c)))"

definition pair_of :: "gomap \<Rightarrow> string \<Rightarrow> string" where
  "pair_of m k = QueryEscape k @ ''='' @ QueryEscape (map_index m k)"

subsection \<open>The parameter map that \<open>Send\<close> builds\<close>

text \<open>
  What an option writes (its key and value), the assignments of \<open>Send\<close> before the
  options (the defaults), those after them (the required fields), and the precedence
  among the three.  \<open>last_override\<close> is the value of the last option in the list that
  writes the key.
\<close>

fun Param_entry :: "Param \<Rightarrow> (string \<times> string) option" where
  "Param_entry (Timestamp t) = Some (''Timestamp'', GenTimestamp t)"
| "Param_entry (SignatureMethod m) = Some (''SignatureMethod'', m)"
| "Param_entry (SignatureVersion v) = Some (''SignatureVersion'', v)"
| "Param_entry (SignatureNonce nonce) = Some (''SignatureNonce'', nonce)"
| "Param_entry (Action action) = Some (''Action'', action)"
| "Param_entry (Version v) = Some (''Version'', v)"
| "Param_entry (RegionID ident) = Some (''RegionId'', ident)"
| "Param_entry (OutID ident) = Some (''OutId'', ident)"
| "Param_entry ZeroParam = None"

fun last_override :: "Param list \<Rightarrow> string \<Rightarrow> string option" where
  "last_override [] K = None"
| "last_override (p # ps) K =
     (case last_override ps K of
        Some v \<Rightarrow> Some v
      | None \<Rightarrow> (case Param_entry p of
                   None \<Rightarrow> None
                 | Some (k, v) \<Rightarrow> if k = K then Some v else None))"

definition default_value :: "World \<Rightarrow> string \<Rightarrow> string option" where
  "default_value w K =
     (if K = ''Timestamp'' then Some (GenTimestamp (time_Now w))
      else if K = ''Format'' then Some ''JSON''
      else if K = ''SignatureMethod'' then Some ''HMAC-SHA1''
      else if K = ''SignatureVersion'' then Some ''1.0''
      else if K = ''SignatureNonce'' then Some (uuid_New w)
      else if K = ''Action'' then Some ''SendSms''
      else if K = ''Version'' then Some ''2017-05-25''
      else if K = ''RegionId'' then Some ''cn-hangzhou''
      else None)"

definition required_field :: "string list \<Rightarrow> string \<Rightarrow> string \<Rightarrow> string \<Rightarrow> string \<Rightarrow> string option" where
  "required_field phoneNumbers signName templateCode templateParam K =
     (if K = ''PhoneNumbers'' then Some (join_with '','' phoneNumbers)
      else if K = ''SignName'' then Some signName
      else if K = ''TemplateCode'' then Some templateCode
      else if K = ''TemplateParam'' then Some templateParam
      else None)"

definition signed_value ::
  "World \<Rightarrow> string list \<Rightarrow> string \<Rightarrow> string \<Rightarrow> string \<Rightarrow> Param list \<Rightarrow> Client \<Rightarrow> string
     \<Rightarrow> string option" where
  "signed_value w phoneNumbers signName templateCode templateParam params c K =
     (case required_field phoneNumbers signName templateCode templateParam K of
        Some rv \<Rightarrow> Some rv
      | None \<Rightarrow> (case last_override params K of
                   Some ov \<Rightarrow> Some ov
                 | None \<Rightarrow> (case default_value w K of
                              Some dv \<Rightarrow> Some dv
                            | None \<Rightarrow> fmlookup (map_entries (Params c)) K)))"

text \<open>Two clients whose parameter maps were filled in by hand (\<^verbatim>\<open>Params\<close> is exported).\<close>

definition order_example :: Client where
  "order_example =
     \<lparr>accessKeySecret = ''secret'',
      Params = Some (fmupd ''{'' ''2'' (fmupd ''a'' ''1'' fmempty))\<rparr>"

definition space_example :: Client where
  "space_example =
     \<lparr>accessKeySecret = ''secret'',
      Params = Some (fmupd ''SignName'' ''my product'' fmempty)\<rparr>"

subsection \<open>The map after the assignments of \<open>Send\<close>\<close>

text \<open>
  \<open>write_params\<close> is the map after the options have run in their order;
  \<open>written_map\<close> is the map after all assignments of \<open>Send\<close>, the last one
  outermost.  \<open>set_parameters_eq\<close> below proves that \<open>Send\<close> builds exactly this map.
\<close>

fun write_params :: "Param list \<Rightarrow> (string, string) fmap \<Rightarrow> (string, string) fmap" where
  "write_params [] m = m"
| "write_params (p # ps) m =
     write_params ps (case Param_entry p of None \<Rightarrow> m | Some (k, v) \<Rightarrow> fmupd k v m)"

definition written_map ::
  "World \<Rightarrow> string list \<Rightarrow> string \<Rightarrow> string \<Rightarrow> string \<Rightarrow> Param list
     \<Rightarrow> (string, string) fmap \<Rightarrow> (string, string) fmap" where
  "written_map w phoneNumbers signName templateCode templateParam params m =
     fmupd ''TemplateParam'' templateParam
      (fmupd ''TemplateCode'' templateCode
        (fmupd ''SignName'' signName
          (fmupd ''PhoneNumbers'' (join_with '','' phoneNumbers)
            (write_params params
              (fmupd ''RegionId'' ''cn-hangzhou''
                (fmupd ''Version'' ''2017-05-25''
                  (fmupd ''Action'' ''SendSms''
                    (fmupd ''SignatureNonce'' (uuid_New w)
                      (fmupd ''SignatureVersion'' ''1.0''
                        (fmupd ''SignatureMethod'' ''HMAC-SHA1''
                          (fmupd ''Format'' ''JSON''
                            (fmupd ''Timestamp'' (GenTimestamp (time_Now w)) m))))))))))))"

text \<open>An example call, with the clock, the UUID and the collaborators fixed.\<close>

definition example_time :: Time where
  "example_time = \<lparr>unixSec = 1483228800, zoneOffset = 28800\<rparr>"

definition example_response :: "string \<Rightarrow> Response" where
  "example_response code =
     \<lparr>RequestID = ''8906582E-6722'', Code = code, Message = ''msg'', BizID = ''134523^4351232''\<rparr>"

definition example_world :: "exchange \<Rightarrow> error + Response \<Rightarrow> World" where
  "example_world x d =
     \<lparr>time_Now = example_time, uuid_New = ''abc'', http_GET = (\<lambda>url. x),
      json_Unmarshal = (\<lambda>buf. d)\<rparr>"

definition example_Send :: "World \<Rightarrow> Client \<Rightarrow> panic + Sent" where
  "example_Send w c = Client_Send w [''13800138000'', ''13900139000''] ''test'' ''SMS_1'' ''{}''
     [SignatureNonce ''n1'', Action ''x'', SignatureNonce ''n2''] c"

definition forged_client :: Client where
  "forged_client =
     \<lparr>accessKeySecret = ''testsecret'', Params = Some (fmupd ''Signature'' ''forged'' fmempty)\<rparr>"

section \<open>Properties of the escapers\<close>

lemma Replace_from_Nil [simp]: "Replace_from [] old new n = []"
  by (simp add: Replace_from.simps)

lemma Replace_from_Cons:
  "Replace_from (c # cs) old new n =
     (if n = 0 \<or> old = [] then c # cs
      else if prefix old (c # cs)
        then new @ Replace_from (drop (length old) (c # cs)) old new (n - 1)
      else c # Replace_from cs old new n)"
  by (subst Replace_from.simps) simp

lemma set_Replace_from: "set (Replace_from s old new n) \<subseteq> set s \<union> set new"
proof (induction s old new n rule: Replace_from.induct)
  case (1 s old new n)
  show ?case
  proof (cases "n = 0 \<or> old = [] \<or> s = []")
    case True
    then show ?thesis by (subst Replace_from.simps) auto
  next
    case stop: False
    show ?thesis
    proof (cases "prefix old s")
      case True
      have "set (Replace_from (drop (length old) s) old new (n - 1))
              \<subseteq> set (drop (length old) s) \<union> set new"
        using 1(1) stop True by simp
      moreover have "set (drop (length old) s) \<subseteq> set s"
        by (rule set_drop_subset)
      ultimately show ?thesis
        using stop True by (subst Replace_from.simps) auto
    next
      case False
      have "set (Replace_from (tl s) old new n) \<subseteq> set (tl s) \<union> set new"
        using 1(2) stop False by simp
      moreover have "set s = insert (hd s) (set (tl s))"
        using stop by (cases s) auto
      ultimately show ?thesis
        using stop False by (subst Replace_from.simps) auto
    qed
  qed
qed

lemma Replace_from_single_absent:
  "n < 0 \<Longrightarrow> c \<notin> set new \<Longrightarrow> c \<notin> set (Replace_from s [c] new n)"
proof (induction s arbitrary: n)
  case Nil
  then show ?case by simp
next
  case (Cons a s)
  have rest: "c \<notin> set (Replace_from s [c] new m)" if "m < 0" for m
    using Cons.IH [of m] that Cons.prems(2) by simp
  show ?case
  proof (cases "a = c")
    case True
    then show ?thesis
      using Cons.prems rest [of "n - 1"] by (simp add: Replace_from_Cons)
  next
    case False
    then show ?thesis
      using Cons.prems rest [of n] by (simp add: Replace_from_Cons)
  qed
qed

lemma Replace_from_keeps_absent:
  "c \<notin> set s \<Longrightarrow> c \<notin> set new \<Longrightarrow> c \<notin> set (Replace_from s old new n)"
  using set_Replace_from [of s old new n] by auto

lemma prefix_Replace_from:
  "n < 0 \<Longrightarrow> old \<noteq> [] \<Longrightarrow> d \<notin> set p \<Longrightarrow> prefix p (Replace_from s old [d] n) \<Longrightarrow> prefix p s"
proof (induction p arbitrary: s n)
  case Nil
  then show ?case by simp
next
  case (Cons x p)
  from Cons.prems(3) have xd: "x \<noteq> d" and dp: "d \<notin> set p" by auto
  show ?case
  proof (cases s)
    case Nil
    with Cons.prems show ?thesis by simp
  next
    case (Cons c cs)
    show ?thesis
    proof (cases "prefix old (c # cs)")
      case True
      with Cons.prems(1,2,4) xd Cons show ?thesis
        by (simp add: Replace_from_Cons)
    next
      case False
      with Cons.prems(1,2,4) Cons
      have "x = c" and "prefix p (Replace_from cs old [d] n)"
        by (simp_all add: Replace_from_Cons)
      with Cons.IH [OF Cons.prems(1,2) dp] Cons show ?thesis by simp
    qed
  qed
qed

lemma Replace_from_no_sublist:
  "n < 0 \<Longrightarrow> old \<noteq> [] \<Longrightarrow> d \<notin> set old \<Longrightarrow> \<not> sublist old (Replace_from s old [d] n)"
proof (induction s old "[d]" n rule: Replace_from.induct)
  case (1 s old n)
  show ?case
  proof (cases s)
    case Nil
    with 1 show ?thesis by simp
  next
    case (Cons c cs)
    obtain o1 os where old: "old = o1 # os"
      using 1(4) by (cases old) auto
    show ?thesis
    proof (cases "prefix old s")
      case True
      have "\<not> sublist old (Replace_from (drop (length old) s) old [d] (n - 1))"
        using 1(1) 1(3,4,5) True Cons by simp
      moreover have "\<not> prefix old (d # Replace_from (drop (length old) s) old [d] (n - 1))"
        using 1(5) old by auto
      ultimately show ?thesis
        using True 1(3,4) Cons by (simp add: Replace_from_Cons sublist_Cons_right)
    next
      case False
      have "\<not> sublist old (Replace_from cs old [d] n)"
        using 1(2) 1(3,4,5) False Cons by simp
      moreover have "\<not> prefix old (c # Replace_from cs old [d] n)"
      proof
        assume p: "prefix old (c # Replace_from cs old [d] n)"
        then have "o1 = c" and "prefix os (Replace_from cs old [d] n)"
          unfolding old by auto
        moreover have "d \<notin> set os" using 1(5) old by simp
        ultimately have "prefix old (c # cs)"
          using prefix_Replace_from [OF 1(3,4), of d os cs] old by simp
        with False Cons show False by simp
      qed
      ultimately show ?thesis
        using False 1(3,4) Cons by (simp add: Replace_from_Cons sublist_Cons_right)
    qed
  qed
qed

text \<open>
  C6.  For every input string the output of \<open>SpecialURLEncode\<close> holds no \<^verbatim>\<open>+\<close>, no
  \<^verbatim>\<open>*\<close>, and no occurrence of the three characters \<^verbatim>\<open>%7E\<close> in a row.
\<close>

theorem SpecialURLEncode_correction_law:
  "CHR ''+'' \<notin> set (SpecialURLEncode s)
   \<and> CHR ''*'' \<notin> set (SpecialURLEncode s)
   \<and> \<not> sublist ''%7E'' (SpecialURLEncode s)"
proof -
  define e1 where "e1 = Replace_from (QueryEscape s) ''+'' ''%20'' (- 1)"
  define e2 where "e2 = Replace_from e1 ''*'' ''%2A'' (- 1)"
  define e3 where "e3 = Replace_from e2 ''%7E'' ''~'' (- 1)"
  have enc: "SpecialURLEncode s = e3"
    by (simp add: SpecialURLEncode_def Replace_def e1_def e2_def e3_def)
  have p1: "CHR ''+'' \<notin> set e1"
    unfolding e1_def by (rule Replace_from_single_absent) simp_all
  have p2: "CHR ''+'' \<notin> set e2"
    unfolding e2_def using p1 by (rule Replace_from_keeps_absent) simp
  have s2: "CHR ''*'' \<notin> set e2"
    unfolding e2_def by (rule Replace_from_single_absent) simp_all
  have p3: "CHR ''+'' \<notin> set e3"
    unfolding e3_def using p2 by (rule Replace_from_keeps_absent) simp
  have s3: "CHR ''*'' \<notin> set e3"
    unfolding e3_def using s2 by (rule Replace_from_keeps_absent) simp
  have t3: "\<not> sublist ''%7E'' e3"
    unfolding e3_def by (rule Replace_from_no_sublist) simp_all
  show ?thesis
    using enc p3 s3 t3 by simp
qed

section \<open>The canonical query string\<close>

lemma upperhex_nth: "k < 16 \<Longrightarrow> upperhex ! k \<in> set upperhex"
  by (rule nth_mem) (simp add: upperhex_def)

lemma of_char_div16: "(of_char (c::char) :: nat) div 16 < 16"
proof -
  have "(of_char c :: nat) < 256" by simp
  then show ?thesis by (simp add: less_mult_imp_div_less)
qed

lemma set_escape_byte:
  "set (escape_byte c) \<subseteq> insert CHR ''+'' (insert CHR ''%'' (set upperhex)) \<union> {x. \<not> shouldEscape x}"
  using upperhex_nth [OF of_char_div16 [of c]] upperhex_nth [of "of_char c mod 16"]
  by (auto simp: escape_byte_def)

lemma set_QueryEscape:
  "set (QueryEscape s) \<subseteq> insert CHR ''+'' (insert CHR ''%'' (set upperhex)) \<union> {x. \<not> shouldEscape x}"
  using set_escape_byte by (induction s) auto

lemma amp_not_in_QueryEscape: "CHR ''&'' \<notin> set (QueryEscape s)"
  using set_QueryEscape [of s] by (auto simp: upperhex_def shouldEscape_def)

lemma eq_not_in_QueryEscape: "CHR ''='' \<notin> set (QueryEscape s)"
  using set_QueryEscape [of s] by (auto simp: upperhex_def shouldEscape_def)

lemma star_not_in_QueryEscape: "CHR ''*'' \<notin> set (QueryEscape s)"
  using set_QueryEscape [of s] by (auto simp: upperhex_def shouldEscape_def)

lemma sorted_list_of_fset_Nil_iff: "sorted_list_of_fset S = [] \<longleftrightarrow> S = {||}"
proof
  assume "sorted_list_of_fset S = []"
  then have "fset_of_list (sorted_list_of_fset S) = {||}" by simp
  then show "S = {||}" by (simp only: sorted_list_of_fset_simps)
next
  assume "S = {||}"
  then have "set (sorted_list_of_fset S) = {}" by simp
  then show "sorted_list_of_fset S = []" by (simp only: set_empty)
qed

lemma join_with_Cons:
  "join_with sep (x # xs) = (if xs = [] then x else x @ sep @ join_with sep xs)"
  by (cases xs) simp_all

lemma join_with_snoc:
  "join_with sep (xs @ [x]) = (if xs = [] then x else join_with sep xs @ sep @ x)"
  by (induction sep xs rule: join_with.induct) (simp_all add: join_with_Cons)

lemma fmlookup_range_Set_aux:
  "fmlookup (fold (\<lambda>k values. Values_Set k (map_index m k) values) ks v) k =
     (if k \<in> set ks then Some [map_index m k] else fmlookup v k)"
  by (induction ks arbitrary: v) (auto simp: Values_Set_def)

lemma fmlookup_range_Set:
  "fmlookup (range_Set m ks) k = (if k \<in> set ks then Some [map_index m k] else None)"
  by (simp add: range_Set_def fmlookup_range_Set_aux)

lemma range_Set_any_order:
  "set ks = set ks' \<Longrightarrow> range_Set m ks = range_Set m ks'"
  by (rule fmap_ext) (simp add: fmlookup_range_Set)

lemma fmdom_range_Set: "fmdom (range_Set m ks) = fset_of_list ks"
  by (rule fset_eqI) (simp add: fmlookup_dom_iff fmlookup_range_Set fset_of_list.rep_eq)

lemma Encode_keys_range_Set:
  "set ks \<subseteq> set all \<Longrightarrow>
   Encode_keys (range_Set m all) ks buf =
     (if ks = [] then buf
      else (if buf = [] then [] else buf @ ''&'') @ join_with ''&'' (map (pair_of m) ks))"
proof (induction ks arbitrary: buf)
  case Nil
  then show ?case by simp
next
  case (Cons k ks)
  have idx: "Values_index (range_Set m all) k = [map_index m k]"
    using Cons.prems by (simp add: Values_index_def fmlookup_range_Set)
  have sub: "set ks \<subseteq> set all" using Cons.prems by simp
  have step: "Encode_values (QueryEscape k) [map_index m k] buf =
      (if buf = [] then [] else buf @ ''&'') @ pair_of m k"
    by (simp add: pair_of_def)
  have ne: "(if buf = [] then [] else buf @ ''&'') @ pair_of m k \<noteq> []"
    by (simp add: pair_of_def)
  show ?case
    using ne by (simp add: idx step Cons.IH [OF sub] join_with_Cons del: Encode_values.simps)
qed

lemma SortedQueryStr_join:
  "SortedQueryStr c = join_with ''&'' (map (pair_of (Params c)) (param_keys c))"
proof -
  let ?ks = "param_keys c"
  let ?v = "range_Set (Params c) ?ks"
  have eq: "SortedQueryStr c = Values_Encode ?v"
    by (simp add: SortedQueryStr_def param_keys_def)
  have dom: "fmdom ?v = fmdom (map_entries (Params c))"
    by (simp add: fmdom_range_Set param_keys_def)
  have keys: "sorted_list_of_fset (fmdom ?v) = ?ks"
    using dom by (simp add: param_keys_def)
  have empty: "?ks = [] \<longleftrightarrow> fmdom ?v = {||}"
    using dom by (simp add: param_keys_def sorted_list_of_fset_Nil_iff)
  show ?thesis
  proof (cases "?ks = []")
    case True
    then show ?thesis
      using empty by (simp add: eq Values_Encode_def)
  next
    case False
    have "Values_Encode ?v = Encode_keys ?v ?ks []"
      using False empty by (simp add: Values_Encode_def keys)
    also have "\<dots> = join_with ''&'' (map (pair_of (Params c)) ?ks)"
      using False Encode_keys_range_Set [of ?ks ?ks "Params c" "[]"] by simp
    finally show ?thesis by (simp only: eq)
  qed
qed

lemma split_on_no_sep: "sep \<notin> set p \<Longrightarrow> split_on sep p = [p]"
  by (induction p) auto

lemma split_on_append_sep:
  "sep \<notin> set p \<Longrightarrow> split_on sep (p @ sep # rest) = p # split_on sep rest"
  by (induction p) auto

lemma split_on_join_with:
  "ps \<noteq> [] \<Longrightarrow> \<forall>p \<in> set ps. sep \<notin> set p \<Longrightarrow> split_on sep (join_with [sep] ps) = ps"
proof (induction ps)
  case Nil
  then show ?case by simp
next
  case (Cons p ps)
  show ?case
  proof (cases "ps = []")
    case True
    with Cons.prems show ?thesis by (simp add: split_on_no_sep)
  next
    case False
    with Cons show ?thesis by (simp add: join_with_Cons split_on_append_sep)
  qed
qed

lemma cut_pair_pair:
  "CHR ''='' \<notin> set k \<Longrightarrow> cut_pair (k @ ''='' @ v) = (k, v)"
  by (simp add: cut_pair_def dropWhile_append)

lemma cut_pair_of: "cut_pair (pair_of m k) = (QueryEscape k, QueryEscape (map_index m k))"
  unfolding pair_of_def by (rule cut_pair_pair) (rule eq_not_in_QueryEscape)

lemma amp_not_in_pair_of: "CHR ''&'' \<notin> set (pair_of m k)"
  by (simp add: pair_of_def amp_not_in_QueryEscape)

lemma join_with_not_Nil:
  "\<exists>x \<in> set xs. x \<noteq> [] \<Longrightarrow> join_with sep xs \<noteq> []"
  by (induction sep xs rule: join_with.induct) auto

lemma query_pairs_SortedQueryStr:
  "query_pairs (SortedQueryStr c) =
     map (\<lambda>k. (QueryEscape k, QueryEscape (map_index (Params c) k))) (param_keys c)"
proof (cases "param_keys c = []")
  case True
  then show ?thesis by (simp add: SortedQueryStr_join query_pairs_def)
next
  case False
  let ?ps = "map (pair_of (Params c)) (param_keys c)"
  have ne: "?ps \<noteq> []" using False by simp
  have "\<exists>x \<in> set ?ps. x \<noteq> []"
    using False by (cases "param_keys c") (auto simp: pair_of_def)
  then have nonempty: "join_with ''&'' ?ps \<noteq> []"
    by (rule join_with_not_Nil)
  have "split_on CHR ''&'' (join_with ''&'' ?ps) = ?ps"
    using ne by (rule split_on_join_with) (auto simp: amp_not_in_pair_of)
  then show ?thesis
    using nonempty by (simp add: SortedQueryStr_join query_pairs_def cut_pair_of comp_def)
qed

text \<open>
  C2 (as amended).  The pairs of the canonical query string are in strictly ascending
  byte-wise order of their \<^emph>\<open>raw\<close> keys, each key then escaped; every key of the map
  appears.  The map itself has no insertion order, and the order in which the
  \<^verbatim>\<open>range\<close> loop visits it does not matter (\<open>range_Set_any_order\<close>).
\<close>

theorem canonical_pairs_ascending_raw_keys:
  "map fst (query_pairs (SortedQueryStr c)) = map QueryEscape (param_keys c)
   \<and> sorted_wrt (<) (param_keys c)
   \<and> set (param_keys c) = fset (fmdom (map_entries (Params c)))"
proof -
  have "sorted_wrt (<) (param_keys c)"
    unfolding param_keys_def sorted_list_of_fset.rep_eq
    by (rule strict_sorted_list_of_set)
  then show ?thesis
    by (simp add: query_pairs_SortedQueryStr comp_def param_keys_def)
qed

text \<open>
  C2 as stated fails: with the keys \<^verbatim>\<open>a\<close> and \<^verbatim>\<open>{\<close> the pair of \<^verbatim>\<open>a\<close> comes
  first, and its encoded key \<^verbatim>\<open>a\<close> is above the encoded key \<^verbatim>\<open>%7B\<close> that follows.
\<close>

theorem encoded_keys_not_ascending:
  "SortedQueryStr order_example = ''a=1&%7B=2''
   \<and> \<not> sorted_wrt (<) (map fst (query_pairs (SortedQueryStr order_example)))"
  by code_simp

text \<open>
  What \<open>SortedQueryStr\<close> writes for each entry of the map: the generic escape
  \<open>QueryEscape\<close> of the raw key and of the raw value.
\<close>

lemma canonical_pairs_generic_escape:
  "query_pairs (SortedQueryStr c) =
     map (\<lambda>k. (QueryEscape k, QueryEscape (map_index (Params c) k))) (param_keys c)"
  by (rule query_pairs_SortedQueryStr)

text \<open>
  C3.  Every key and value of the canonical query string should be the corrected
  escape of the raw key or value, so that a space shows as \<^verbatim>\<open>%20\<close>.  The code does
  not do so: for the value \<^verbatim>\<open>my product\<close> the canonical query string holds
  \<^verbatim>\<open>my+product\<close>, where the corrected escape of the value is \<^verbatim>\<open>my%20product\<close>.
\<close>

theorem space_value_contributes_plus:
  "query_pairs (SortedQueryStr space_example) = [(''SignName'', ''my+product'')]
   \<and> SpecialURLEncode ''my product'' = ''my%20product''
   \<and> CHR ''+'' \<in> set (SortedQueryStr space_example)"
  by code_simp

section \<open>The parameters that \<open>Send\<close> signs\<close>

lemma set_Param_eq:
  "set_Param k v c =
     (case Params c of None \<Rightarrow> Inl NilMapAssignment
      | Some m \<Rightarrow> Inr (c\<lparr>Params := Some (fmupd k v m)\<rparr>))"
  by (simp add: set_Param_def map_assign_def split: option.splits)

lemma SetTimestamp_eq: "SetTimestamp t c = set_Param ''Timestamp'' (GenTimestamp t) c"
  by (simp add: SetTimestamp_def GenTimestamp_def Let_def)

lemma Param_f_eq:
  "Param_f p c =
     (case Param_entry p of None \<Rightarrow> Inl NilFuncCall | Some (k, v) \<Rightarrow> set_Param k v c)"
  by (cases p) (simp_all add: SetTimestamp_eq)

lemma range_params_eq:
  "Params c = Some m \<Longrightarrow>
   range_params ps c =
     (if ZeroParam \<in> set ps then Inl NilFuncCall
      else Inr (c\<lparr>Params := Some (write_params ps m)\<rparr>))"
proof (induction ps arbitrary: c m)
  case Nil
  then show ?case by simp
next
  case (Cons p ps)
  show ?case
  proof (cases p)
    case ZeroParam
    then show ?thesis by (simp add: and_then_def)
  next
    case (Timestamp t)
    then show ?thesis using Cons.prems
      by (simp add: and_then_def SetTimestamp_eq set_Param_eq Cons.IH)
  qed (use Cons.prems in \<open>simp_all add: and_then_def set_Param_eq Cons.IH\<close>)
qed

lemma lookup_write_params:
  "fmlookup (write_params ps m) K =
     (case last_override ps K of Some v \<Rightarrow> Some v | None \<Rightarrow> fmlookup m K)"
  by (induction ps arbitrary: m) (auto split: option.splits)

lemma range_nums_join:
  "range_nums i (i + int (length nums)) nums str = str @ join_with '','' nums"
proof (induction nums arbitrary: i str)
  case Nil
  then show ?case by simp
next
  case (Cons n nums)
  have l: "i + int (length (n # nums)) = (i + 1) + int (length nums)" by simp
  show ?case
  proof (cases "nums = []")
    case True
    then show ?thesis by simp
  next
    case False
    then have ne: "i \<noteq> i + int (length (n # nums)) - 1" by simp
    have "range_nums i (i + int (length (n # nums))) (n # nums) str =
            range_nums (i + 1) ((i + 1) + int (length nums)) nums ((str @ n) @ '','')"
      using ne unfolding l by (simp add: Let_def)
    also have "\<dots> = ((str @ n) @ '','') @ join_with '','' nums"
      by (rule Cons.IH)
    finally show ?thesis using False by (simp add: join_with_Cons)
  qed
qed

lemma SetPhoneNumbers_eq:
  "SetPhoneNumbers nums c = set_Param ''PhoneNumbers'' (join_with '','' nums) c"
  using range_nums_join [of 0 nums "[]"] by (simp add: SetPhoneNumbers_def Let_def)

lemma set_parameters_eq:
  "set_parameters w pn sn tc tp ps c =
     (case Params c of
        None \<Rightarrow> Inl NilMapAssignment
      | Some m \<Rightarrow>
          if ZeroParam \<in> set ps then Inl NilFuncCall
          else Inr (c\<lparr>Params := Some (written_map w pn sn tc tp ps m)\<rparr>))"
proof (cases "Params c")
  case None
  then show ?thesis
    by (simp add: set_parameters_def and_then_def SetTimestamp_eq set_Param_eq)
next
  case (Some m)
  define c8 where "c8 = c\<lparr>Params := Some
     (fmupd ''RegionId'' ''cn-hangzhou''
       (fmupd ''Version'' ''2017-05-25''
         (fmupd ''Action'' ''SendSms''
           (fmupd ''SignatureNonce'' (uuid_New w)
             (fmupd ''SignatureVersion'' ''1.0''
               (fmupd ''SignatureMethod'' ''HMAC-SHA1''
                 (fmupd ''Format'' ''JSON''
                   (fmupd ''Timestamp'' (GenTimestamp (time_Now w)) m))))))))\<rparr>"
  have p8: "Params c8 = Some
     (fmupd ''RegionId'' ''cn-hangzhou''
       (fmupd ''Version'' ''2017-05-25''
         (fmupd ''Action'' ''SendSms''
           (fmupd ''SignatureNonce'' (uuid_New w)
             (fmupd ''SignatureVersion'' ''1.0''
               (fmupd ''SignatureMethod'' ''HMAC-SHA1''
                 (fmupd ''Format'' ''JSON''
                   (fmupd ''Timestamp'' (GenTimestamp (time_Now w)) m))))))))"
    by (simp add: c8_def)
  have head: "set_parameters w pn sn tc tp ps c =
     and_then (range_params ps c8) (\<lambda>c.
     and_then (SetPhoneNumbers pn c) (\<lambda>c.
     and_then (set_Param ''SignName'' sn c) (\<lambda>c.
     and_then (set_Param ''TemplateCode'' tc c) (\<lambda>c.
     set_Param ''TemplateParam'' tp c))))"
    using Some by (simp add: set_parameters_def and_then_def SetTimestamp_eq set_Param_eq c8_def)
  show ?thesis
    unfolding head range_params_eq [OF p8]
    using Some
    by (simp add: and_then_def SetPhoneNumbers_eq set_Param_eq written_map_def c8_def)
qed

lemma lookup_written_map:
  "fmlookup (written_map w pn sn tc tp ps m) K =
     signed_value w pn sn tc tp ps \<lparr>accessKeySecret = s, Params = Some m\<rparr> K"
proof -
  have upd: "fmlookup (fmupd a b f) K = (if K = a then Some b else fmlookup f K)" for a b f
    by auto
  have lhs: "fmlookup (written_map w pn sn tc tp ps m) K =
     (if K = ''TemplateParam'' then Some tp
      else if K = ''TemplateCode'' then Some tc
      else if K = ''SignName'' then Some sn
      else if K = ''PhoneNumbers'' then Some (join_with '','' pn)
      else case last_override ps K of
        Some v \<Rightarrow> Some v
      | None \<Rightarrow>
         (if K = ''RegionId'' then Some ''cn-hangzhou''
          else if K = ''Version'' then Some ''2017-05-25''
          else if K = ''Action'' then Some ''SendSms''
          else if K = ''SignatureNonce'' then Some (uuid_New w)
          else if K = ''SignatureVersion'' then Some ''1.0''
          else if K = ''SignatureMethod'' then Some ''HMAC-SHA1''
          else if K = ''Format'' then Some ''JSON''
          else if K = ''Timestamp'' then Some (GenTimestamp (time_Now w))
          else fmlookup m K))"
    by (simp only: written_map_def upd lookup_write_params)
  show ?thesis
  proof (cases "K \<in> {''TemplateParam'', ''TemplateCode'', ''SignName'', ''PhoneNumbers'',
      ''RegionId'', ''Version'', ''Action'', ''SignatureNonce'', ''SignatureVersion'',
      ''SignatureMethod'', ''Format'', ''Timestamp''}")
    case True
    then show ?thesis
      unfolding lhs
      by (elim insertE emptyE)
         (simp_all add: signed_value_def required_field_def default_value_def map_entries_def
            split: option.splits)
  next
    case False
    then show ?thesis
      unfolding lhs
      by (simp add: signed_value_def required_field_def default_value_def map_entries_def
            split: option.splits)
  qed
qed

lemma Send_with_eq:
  "Send_with signer w pn sn tc tp ps c =
     (case Params c of
        None \<Rightarrow> Inl NilMapAssignment
      | Some m \<Rightarrow>
          if ZeroParam \<in> set ps then Inl NilFuncCall
          else Inr (sign_and_send signer w (c\<lparr>Params := Some (written_map w pn sn tc tp ps m)\<rparr>)))"
  by (simp add: Send_with_def set_parameters_eq split: option.splits)

lemma client_sign_and_send [simp]: "client (sign_and_send signer w c) = c"
  by (simp add: sign_and_send_def Let_def)

lemma requested_sign_and_send:
  "requested (sign_and_send signer w c) =
     ''http://dysmsapi.aliyuncs.com/?Signature='' @ signer c @ ''&'' @ SortedQueryStr c"
  by (simp add: sign_and_send_def Let_def URL_String_def)

lemma Send_with_Inr:
  assumes "Send_with signer w pn sn tc tp ps c = Inr s"
  obtains m where "Params c = Some m" "ZeroParam \<notin> set ps"
    "s = sign_and_send signer w (c\<lparr>Params := Some (written_map w pn sn tc tp ps m)\<rparr>)"
  using assms by (auto simp: Send_with_eq split: option.splits if_splits)

lemma signed_value_cong:
  "map_entries (Params c) = map_entries (Params c') \<Longrightarrow>
   signed_value w pn sn tc tp ps c K = signed_value w pn sn tc tp ps c' K"
  unfolding signed_value_def by (simp only:)

lemma Send_signed_lookup:
  assumes "Send_with signer w pn sn tc tp ps c = Inr s"
  shows "fmlookup (map_entries (Params (client s))) K = signed_value w pn sn tc tp ps c K"
proof -
  from assms obtain m where m: "Params c = Some m"
    and s: "s = sign_and_send signer w (c\<lparr>Params := Some (written_map w pn sn tc tp ps m)\<rparr>)"
    by (rule Send_with_Inr)
  have "fmlookup (map_entries (Params (client s))) K = fmlookup (written_map w pn sn tc tp ps m) K"
    by (simp add: s map_entries_def)
  also have "\<dots> = signed_value w pn sn tc tp ps \<lparr>accessKeySecret = accessKeySecret c, Params = Some m\<rparr> K"
    by (rule lookup_written_map)
  also have "\<dots> = signed_value w pn sn tc tp ps c K"
    by (rule signed_value_cong) (simp add: m)
  finally show ?thesis .
qed

lemma example_Send_returns:
  "example_Send w (NewClient a b) = Inr (projr (example_Send w (NewClient a b)))"
  by (simp add: example_Send_def Client_Send_def Send_with_eq NewClient_def)

text \<open>
  C5.  Whenever \<open>Send\<close> gets as far as signing (it returns rather than panics), the
  value in the map at signing time for a key \<open>K\<close> is the required field of the call
  if \<open>K\<close> is one of \<^verbatim>\<open>PhoneNumbers\<close>, \<^verbatim>\<open>SignName\<close>, \<^verbatim>\<open>TemplateCode\<close>,
  \<^verbatim>\<open>TemplateParam\<close>; else the value of the last option in the list that writes \<open>K\<close>;
  else the default that \<open>Send\<close> seeds for \<open>K\<close>; and for any other key what the map held
  before the call.  This holds for both revisions of \<open>Send\<close>, which are
  \<open>Send_with SMS_SignedString\<close> and \<open>Send_with Client_SignedString\<close>.
\<close>

theorem Send_signs_by_precedence:
  assumes "Send_with signer w pn sn tc tp ps c = Inr s"
  shows "fmlookup (map_entries (Params (client s))) K = signed_value w pn sn tc tp ps c K"
  using assms by (rule Send_signed_lookup)

theorem Send_signs_by_precedence_witness:
  "example_Send (example_world (Body ''{}'') (Inr (example_response ''OK''))) (NewClient ''id1'' ''testsecret'')
     = Inr (projr (example_Send (example_world (Body ''{}'') (Inr (example_response ''OK'')))
         (NewClient ''id1'' ''testsecret'')))
   \<and> map (fmlookup (map_entries (Params (client (projr
         (example_Send (example_world (Body ''{}'') (Inr (example_response ''OK'')))
            (NewClient ''id1'' ''testsecret''))))))) 
       [''PhoneNumbers'', ''SignatureNonce'', ''Action'', ''Format'', ''AccessKeyId'']
     = [Some ''13800138000,13900139000'', Some ''n2'', Some ''x'', Some ''JSON'', Some ''id1'']"
proof -
  let ?w = "example_world (Body ''{}'') (Inr (example_response ''OK''))"
  let ?c = "NewClient ''id1'' ''testsecret''"
  have h: "Send_with Client_SignedString ?w [''13800138000'', ''13900139000''] ''test'' ''SMS_1'' ''{}''
     [SignatureNonce ''n1'', Action ''x'', SignatureNonce ''n2''] ?c = Inr (projr (example_Send ?w ?c))"
    using example_Send_returns [of ?w "''id1''" "''testsecret''"]
    by (simp add: example_Send_def Client_Send_def)
  show ?thesis
    using h Send_signs_by_precedence [OF h]
    by (simp add: example_Send_def Client_Send_def signed_value_def required_field_def
        default_value_def NewClient_def map_entries_def)
qed

section \<open>The outcome of \<open>Send\<close>\<close>

lemma of_char_lt_256: "(of_char (c::char) :: nat) < 256"
  by simp

lemma char_eq_of_char: "c = d \<longleftrightarrow> (of_char c :: nat) = of_char d"
  by simp

lemma upper_letter:
  assumes "(of_char X :: nat) + 32 < 256" "\<not> (CHR ''a'' \<le> X \<and> X \<le> CHR ''z'')"
  shows "(if CHR ''a'' \<le> c \<and> c \<le> CHR ''z'' then char_of (of_char c - (32 :: nat)) else c) = X
         \<longleftrightarrow> c = X \<or> (CHR ''a'' \<le> c \<and> c \<le> CHR ''z'' \<and> (of_char c :: nat) = of_char X + 32)"
proof (cases "CHR ''a'' \<le> c \<and> c \<le> CHR ''z''")
  case True
  then have lo: "97 \<le> (of_char c :: nat)"
    by (simp add: less_eq_char_def)
  have "char_of (of_char c - (32 :: nat)) = X \<longleftrightarrow> take_bit 8 (of_char c - (32 :: nat)) = of_char X"
    by (rule char_of_eq_iff)
  also have "take_bit 8 (of_char c - (32 :: nat)) = of_char c - 32"
  proof -
    have "(of_char c :: nat) - 32 < 256"
      using of_char_lt_256 [of c] by linarith
    then have "(of_char c :: nat) - 32 < 2 ^ 8" by simp
    then show ?thesis by (simp only: take_bit_nat_eq_self_iff)
  qed
  finally show ?thesis using True lo assms(2) by auto
next
  case False
  then show ?thesis by auto
qed

lemma upper_O:
  "(if CHR ''a'' \<le> c \<and> c \<le> CHR ''z'' then char_of (of_char c - (32 :: nat)) else c) = CHR ''O''
     \<longleftrightarrow> c = CHR ''O'' \<or> c = CHR ''o''"
proof -
  have "(of_char c :: nat) = 111 \<longleftrightarrow> c = CHR ''o''"
    by (simp add: char_eq_of_char [of c])
  moreover have "c = CHR ''o'' \<Longrightarrow> CHR ''a'' \<le> c \<and> c \<le> CHR ''z''" by simp
  ultimately show ?thesis
    using upper_letter [of "CHR ''O''" c] by auto
qed

lemma upper_K:
  "(if CHR ''a'' \<le> c \<and> c \<le> CHR ''z'' then char_of (of_char c - (32 :: nat)) else c) = CHR ''K''
     \<longleftrightarrow> c = CHR ''K'' \<or> c = CHR ''k''"
proof -
  have "(of_char c :: nat) = 107 \<longleftrightarrow> c = CHR ''k''"
    by (simp add: char_eq_of_char [of c])
  moreover have "c = CHR ''k'' \<Longrightarrow> CHR ''a'' \<le> c \<and> c \<le> CHR ''z''" by simp
  ultimately show ?thesis
    using upper_letter [of "CHR ''K''" c] by auto
qed

lemma ToUpper_OK: "ToUpper s = ''OK'' \<longleftrightarrow> s \<in> {''OK'', ''Ok'', ''oK'', ''ok''}"
proof (cases s)
  case Nil
  then show ?thesis by (simp add: ToUpper_def)
next
  case (Cons c1 s1)
  show ?thesis
  proof (cases s1)
    case Nil
    with Cons show ?thesis by (simp add: ToUpper_def)
  next
    case (Cons c2 s2)
    show ?thesis
      unfolding \<open>s = c1 # s1\<close> Cons ToUpper_def
      by (simp only: list.map list.inject upper_O upper_K) auto
  qed
qed

text \<open>
  C8.  When the exchange delivers a body and the body decodes, \<open>Send\<close> returns
  success exactly if the decoded \<^verbatim>\<open>Code\<close> is \<^verbatim>\<open>OK\<close> in any mix of upper and lower
  case, and in either case it returns the decoded response unchanged and no error.
\<close>

theorem Send_classifies_by_Code:
  assumes "Send_with signer w pn sn tc tp ps c = Inr s"
    and "http_GET w (requested s) = Body buf"
    and "json_Unmarshal w buf = Inr r"
  shows "(success (returned s) \<longleftrightarrow> Code r \<in> {''OK'', ''Ok'', ''oK'', ''ok''})
         \<and> response (returned s) = Some r \<and> err (returned s) = None"
proof -
  from assms(1) obtain c' where s: "s = sign_and_send signer w c'"
    by (rule Send_with_Inr)
  have url: "requested s = URL_String \<lparr>Scheme = ''http'', Host = ''dysmsapi.aliyuncs.com'',
      Path = ''/'', RawQuery = ''Signature='' @ signer c' @ ''&'' @ SortedQueryStr c'\<rparr>"
    by (simp add: s sign_and_send_def Let_def)
  have "returned s =
      (if ToUpper (Code r) \<noteq> ''OK'' then \<lparr>success = False, response = Some r, err = None\<rparr>
       else \<lparr>success = True, response = Some r, err = None\<rparr>)"
    using assms(2,3) unfolding url by (simp add: s sign_and_send_def Let_def)
  then show ?thesis
    using ToUpper_OK [of "Code r"] by (simp split: if_splits)
qed

theorem Send_classifies_by_Code_witness:
  "example_Send (example_world (Body ''{}'') (Inr (example_response ''Ok''))) (NewClient ''id1'' ''testsecret'')
     = Inr (projr (example_Send (example_world (Body ''{}'') (Inr (example_response ''Ok'')))
         (NewClient ''id1'' ''testsecret'')))
   \<and> returned (projr (example_Send (example_world (Body ''{}'') (Inr (example_response ''Ok'')))
         (NewClient ''id1'' ''testsecret'')))
     = \<lparr>success = True, response = Some (example_response ''Ok''), err = None\<rparr>"
proof -
  let ?w = "example_world (Body ''{}'') (Inr (example_response ''Ok''))"
  let ?c = "NewClient ''id1'' ''testsecret''"
  let ?s = "projr (example_Send ?w ?c)"
  have h: "Send_with Client_SignedString ?w [''13800138000'', ''13900139000''] ''test'' ''SMS_1'' ''{}''
     [SignatureNonce ''n1'', Action ''x'', SignatureNonce ''n2''] ?c = Inr ?s"
    using example_Send_returns [of ?w "''id1''" "''testsecret''"]
    by (simp add: example_Send_def Client_Send_def)
  have g: "http_GET ?w (requested ?s) = Body ''{}''"
    by (simp add: example_world_def)
  have d: "json_Unmarshal ?w ''{}'' = Inr (example_response ''Ok'')"
    by (simp add: example_world_def)
  have "Code (example_response ''Ok'') = ''Ok''"
    by (simp add: example_response_def)
  then show ?thesis
    using h Send_classifies_by_Code [OF h g d]
    by (simp add: example_Send_def Client_Send_def)
qed

text \<open>
  C9.  When \<^verbatim>\<open>http.NewRequest\<close>, the GET, the read of the body or the decoding fails
  with an error \<open>e\<close>, \<open>Send\<close> returns \<^verbatim>\<open>false\<close>, a \<^verbatim>\<open>nil\<close> response and the error \<open>e\<close>.
\<close>

theorem Send_fails_without_Response:
  assumes "Send_with signer w pn sn tc tp ps c = Inr s"
    and "http_GET w (requested s) = NewRequestFails e
         \<or> http_GET w (requested s) = DoFails e
         \<or> http_GET w (requested s) = ReadAllFails e
         \<or> (\<exists>buf. http_GET w (requested s) = Body buf \<and> json_Unmarshal w buf = Inl e)"
  shows "returned s = \<lparr>success = False, response = None, err = Some e\<rparr>"
proof -
  from assms(1) obtain c' where s: "s = sign_and_send signer w c'"
    by (rule Send_with_Inr)
  have url: "requested s = URL_String \<lparr>Scheme = ''http'', Host = ''dysmsapi.aliyuncs.com'',
      Path = ''/'', RawQuery = ''Signature='' @ signer c' @ ''&'' @ SortedQueryStr c'\<rparr>"
    by (simp add: s sign_and_send_def Let_def)
  from assms(2) show ?thesis
    unfolding url by (auto simp: s sign_and_send_def Let_def)
qed

theorem Send_fails_without_Response_witness:
  "example_Send (example_world (DoFails (Error ''timeout'')) (Inr (example_response ''OK'')))
       (NewClient ''id1'' ''testsecret'')
     = Inr (projr (example_Send (example_world (DoFails (Error ''timeout'')) (Inr (example_response ''OK'')))
         (NewClient ''id1'' ''testsecret'')))
   \<and> returned (projr (example_Send (example_world (DoFails (Error ''timeout'')) (Inr (example_response ''OK'')))
         (NewClient ''id1'' ''testsecret'')))
     = \<lparr>success = False, response = None, err = Some (Error ''timeout'')\<rparr>"
proof -
  let ?w = "example_world (DoFails (Error ''timeout'')) (Inr (example_response ''OK''))"
  let ?c = "NewClient ''id1'' ''testsecret''"
  let ?s = "projr (example_Send ?w ?c)"
  have h: "Send_with Client_SignedString ?w [''13800138000'', ''13900139000''] ''test'' ''SMS_1'' ''{}''
     [SignatureNonce ''n1'', Action ''x'', SignatureNonce ''n2''] ?c = Inr ?s"
    using example_Send_returns [of ?w "''id1''" "''testsecret''"]
    by (simp add: example_Send_def Client_Send_def)
  have g: "http_GET ?w (requested ?s) = DoFails (Error ''timeout'')"
    by (simp add: example_world_def)
  show ?thesis
    using h Send_fails_without_Response [OF h, of "Error ''timeout''"] g
    by (simp add: example_Send_def Client_Send_def)
qed

section \<open>The signature field\<close>

lemma last_override_Signature: "last_override ps ''Signature'' = None"
proof (induction ps)
  case Nil
  then show ?case by simp
next
  case (Cons p ps)
  then show ?case by (cases p) simp_all
qed

lemma escape_byte_plain:
  "CHR ''%'' \<notin> set (escape_byte c) \<Longrightarrow> CHR ''+'' \<notin> set (escape_byte c) \<Longrightarrow> escape_byte c = [c]"
  by (auto simp: escape_byte_def split: if_splits)

lemma QueryEscape_plain:
  "CHR ''%'' \<notin> set (QueryEscape k) \<Longrightarrow> CHR ''+'' \<notin> set (QueryEscape k) \<Longrightarrow> QueryEscape k = k"
proof (induction k)
  case Nil
  then show ?case by simp
next
  case (Cons c k)
  from Cons.prems have e: "escape_byte c = [c]"
    by (intro escape_byte_plain) simp_all
  from Cons.prems have "QueryEscape k = k"
    by (intro Cons.IH) simp_all
  with e show ?case by simp
qed

lemma QueryEscape_Signature: "QueryEscape k = ''Signature'' \<Longrightarrow> k = ''Signature''"
proof -
  assume a: "QueryEscape k = ''Signature''"
  have "QueryEscape k = k"
    by (rule QueryEscape_plain) (simp_all add: a)
  with a show ?thesis by simp
qed

lemma set_param_keys: "set (param_keys c) = fset (fmdom (map_entries (Params c)))"
  by (simp add: param_keys_def)

lemma pair_in_query_pairs:
  "k \<in> set (param_keys c) \<Longrightarrow>
   (QueryEscape k, QueryEscape (map_index (Params c) k)) \<in> set (query_pairs (SortedQueryStr c))"
  by (auto simp: query_pairs_SortedQueryStr)

text \<open>
  C4 (as amended).  For a call of \<open>Send\<close> on a client whose parameter map holds no
  \<^verbatim>\<open>Signature\<close> key beforehand, the map at signing time holds no such key, no pair of
  the canonical query string has that key, and the URL requested is the fixed
  scheme, host and path followed by \<^verbatim>\<open>?Signature=\<close>, the signature of the client as
  signed, \<^verbatim>\<open>&\<close> and the canonical query string of that client.
\<close>

theorem Send_excludes_Signature:
  assumes "Send_with signer w pn sn tc tp ps c = Inr s"
    and "''Signature'' |\<notin>| fmdom (map_entries (Params c))"
  shows "''Signature'' |\<notin>| fmdom (map_entries (Params (client s)))
         \<and> ''Signature'' \<notin> fst ` set (query_pairs (SortedQueryStr (client s)))
         \<and> requested s =
             ''http://dysmsapi.aliyuncs.com/?Signature='' @ signer (client s) @ ''&''
               @ SortedQueryStr (client s)"
proof -
  from assms(1) obtain m where m: "Params c = Some m"
    and s: "s = sign_and_send signer w (c\<lparr>Params := Some (written_map w pn sn tc tp ps m)\<rparr>)"
    by (rule Send_with_Inr)
  have old: "fmlookup m ''Signature'' = None"
    using assms(2) m by (simp add: map_entries_def fmdom_notD)
  have "fmlookup (map_entries (Params (client s))) ''Signature'' =
          signed_value w pn sn tc tp ps c ''Signature''"
    using assms(1) by (rule Send_signed_lookup)
  also have "\<dots> = None"
    using old m
    by (simp add: signed_value_def required_field_def default_value_def
        last_override_Signature map_entries_def)
  finally have absent: "''Signature'' |\<notin>| fmdom (map_entries (Params (client s)))"
    by (simp add: fmdom_notI)
  have "''Signature'' \<notin> fst ` set (query_pairs (SortedQueryStr (client s)))"
  proof
    assume "''Signature'' \<in> fst ` set (query_pairs (SortedQueryStr (client s)))"
    then obtain k where k: "k \<in> set (param_keys (client s))" "QueryEscape k = ''Signature''"
      by (auto simp: query_pairs_SortedQueryStr)
    then have "''Signature'' \<in> set (param_keys (client s))"
      using QueryEscape_Signature by auto
    with absent show False by (simp add: set_param_keys)
  qed
  moreover have "requested s =
      ''http://dysmsapi.aliyuncs.com/?Signature='' @ signer (client s) @ ''&''
        @ SortedQueryStr (client s)"
    by (simp add: s requested_sign_and_send)
  ultimately show ?thesis using absent by simp
qed

theorem Send_excludes_Signature_witness:
  "example_Send (example_world (Body ''{}'') (Inr (example_response ''OK''))) (NewClient ''id1'' ''testsecret'')
     = Inr (projr (example_Send (example_world (Body ''{}'') (Inr (example_response ''OK'')))
         (NewClient ''id1'' ''testsecret'')))
   \<and> ''Signature'' |\<notin>| fmdom (map_entries (Params (NewClient ''id1'' ''testsecret'')))
   \<and> ''Signature'' \<notin> fst ` set (query_pairs (SortedQueryStr (client (projr
         (example_Send (example_world (Body ''{}'') (Inr (example_response ''OK'')))
            (NewClient ''id1'' ''testsecret''))))))"
proof -
  let ?w = "example_world (Body ''{}'') (Inr (example_response ''OK''))"
  let ?c = "NewClient ''id1'' ''testsecret''"
  let ?s = "projr (example_Send ?w ?c)"
  have h: "Send_with Client_SignedString ?w [''13800138000'', ''13900139000''] ''test'' ''SMS_1'' ''{}''
     [SignatureNonce ''n1'', Action ''x'', SignatureNonce ''n2''] ?c = Inr ?s"
    using example_Send_returns [of ?w "''id1''" "''testsecret''"]
    by (simp add: example_Send_def Client_Send_def)
  have a: "''Signature'' |\<notin>| fmdom (map_entries (Params ?c))"
    by (simp add: NewClient_def map_entries_def)
  show ?thesis
    using h a Send_excludes_Signature [OF h a]
    by (simp add: example_Send_def Client_Send_def)
qed

text \<open>
  C4 as stated fails: \<^verbatim>\<open>Params\<close> is an exported field, \<open>Send\<close> never removes a key,
  and a \<^verbatim>\<open>Signature\<close> entry that the caller put there is part of the canonical query
  string that is signed.
\<close>

theorem forged_Signature_is_signed:
  "example_Send (example_world (Body ''{}'') (Inr (example_response ''OK''))) forged_client
     = Inr (projr (example_Send (example_world (Body ''{}'') (Inr (example_response ''OK''))) forged_client))
   \<and> (''Signature'', ''forged'') \<in> set (query_pairs (SortedQueryStr (client (projr
         (example_Send (example_world (Body ''{}'') (Inr (example_response ''OK''))) forged_client)))))"
proof -
  let ?w = "example_world (Body ''{}'') (Inr (example_response ''OK''))"
  let ?s = "projr (example_Send ?w forged_client)"
  have h: "Send_with Client_SignedString ?w [''13800138000'', ''13900139000''] ''test'' ''SMS_1'' ''{}''
     [SignatureNonce ''n1'', Action ''x'', SignatureNonce ''n2''] forged_client = Inr ?s"
    by (simp add: example_Send_def Client_Send_def Send_with_eq forged_client_def)
  have look: "fmlookup (map_entries (Params (client ?s))) ''Signature'' = Some ''forged''"
    using Send_signed_lookup [OF h, of "''Signature''"]
    by (simp add: signed_value_def required_field_def default_value_def forged_client_def
        map_entries_def)
  then have key: "''Signature'' \<in> set (param_keys (client ?s))"
    by (simp add: set_param_keys fmdomI)
  have val: "map_index (Params (client ?s)) ''Signature'' = ''forged''"
    using look by (simp add: map_index_def)
  have q1: "QueryEscape ''Signature'' = ''Signature''" by code_simp
  have q2: "QueryEscape ''forged'' = ''forged''" by code_simp
  have "(QueryEscape ''Signature'', QueryEscape (map_index (Params (client ?s)) ''Signature''))
          \<in> set (query_pairs (SortedQueryStr (client ?s)))"
    using key by (rule pair_in_query_pairs)
  then have pair: "(''Signature'', ''forged'') \<in> set (query_pairs (SortedQueryStr (client ?s)))"
    by (simp only: val q1 q2)
  have ret: "example_Send ?w forged_client = Inr ?s"
    using h by (simp only: example_Send_def Client_Send_def)
  show ?thesis
    using ret pair by (rule conjI)
qed

end
